theory Spec2Isabelle
  imports Main "HOL-Library.Sublist"
begin

section \<open>The documentation server of mcpdoc/main.py\<close>

text \<open>
  A shallow embedding of \<^verbatim>\<open>src/mcpdoc/main.py\<close>. Python strings are
  \<^typ>\<open>string\<close> (lists of characters with codes 0 to 255); \<^verbatim>\<open>s.startswith(p)\<close> is
  \<^term>\<open>prefix p s\<close>. An exception is a value of \<open>exn\<close>; a function that can
  raise returns \<open>exn + 'a\<close> with \<open>Inl\<close> for the raise. Everything the program
  reaches outside itself (the file system, the HTTP client, the markup converter) is a
  field of the record \<open>world\<close>, passed to the function that uses it. The I/O a tool
  performs is returned as a list of \<open>effect\<close>s, in order.
\<close>

subsection \<open>Exceptions, effects, the outside world\<close>

datatype exn =
    ValueError string
  | FileNotFoundError string
  | HTTPStatusError string
  | RequestError string
  | OtherException string

text \<open>\<^verbatim>\<open>str(e)\<close>: the message an exception carries.\<close>

fun str_exn :: "exn \<Rightarrow> string" where
  "str_exn (ValueError m) = m"
| "str_exn (FileNotFoundError m) = m"
| "str_exn (HTTPStatusError m) = m"
| "str_exn (RequestError m) = m"
| "str_exn (OtherException m) = m"

datatype effect = HttpGet string | OpenFile string

text \<open>
  An HTTP response: its status code, its \<^verbatim>\<open>.text\<close>, and the message that
  \<^verbatim>\<open>raise_for_status()\<close> attaches to the HTTPStatusError it raises for it.
\<close>

record response =
  status_code :: nat
  resp_text :: string
  status_message :: string

text \<open>
  The outside world at the time of a call.
  \<^item> \<open>abspath\<close>: \<^verbatim>\<open>os.path.abspath\<close> (it depends on the platform and the working directory);
  \<^item> \<open>path_exists\<close>: \<^verbatim>\<open>os.path.exists\<close>;
  \<^item> \<open>read_text\<close>: \<^verbatim>\<open>open(p, "r", encoding="utf-8")\<close> followed by \<^verbatim>\<open>f.read()\<close>,
    \<open>Inl\<close> the exception either of them raises;
  \<^item> \<open>client_get\<close>: \<^verbatim>\<open>await httpx_client.get(url, timeout=timeout)\<close>, \<open>Inl\<close> the
    exception it raises (a \<open>RequestError\<close> for a transport failure, any other
    exception otherwise);
  \<^item> \<open>markdownify\<close>: the markup converter;
  \<^item> \<open>netloc_check\<close>: the checks \<^verbatim>\<open>urllib.parse.urlsplit\<close> runs on a non-empty
    network location beyond bracket balance (bracketed-host syntax, NFKC), \<open>Some\<close>
    the message of the ValueError when they reject it; they differ between Python
    versions and read the network location only.
\<close>

record world =
  abspath :: "string \<Rightarrow> string"
  path_exists :: "string \<Rightarrow> bool"
  read_text :: "string \<Rightarrow> exn + string"
  client_get :: "string \<Rightarrow> exn + response"
  markdownify :: "string \<Rightarrow> string"
  netloc_check :: "string \<Rightarrow> string option"

text \<open>
  \<^verbatim>\<open>response.raise_for_status()\<close>: httpx raises HTTPStatusError unless the status
  is a success (200 to 299).
\<close>

definition raise_for_status :: "response \<Rightarrow> exn + response" where
  "raise_for_status r =
     (if 200 \<le> status_code r \<and> status_code r \<le> 299 then Inr r
      else Inl (HTTPStatusError (status_message r)))"

subsection \<open>Python string operations\<close>

text \<open>\<^verbatim>\<open>sep.join(xs)\<close>.\<close>

fun py_join :: "string \<Rightarrow> string list \<Rightarrow> string" where
  "py_join sep [] = []"
| "py_join sep [x] = x"
| "py_join sep (x # y # ys) = x @ sep @ py_join sep (y # ys)"



text \<open>\<^verbatim>\<open>s.lstrip(..)\<close>, \<^verbatim>\<open>s.rstrip(..)\<close>, \<^verbatim>\<open>s.strip(..)\<close> for the characters that satisfy \<open>P\<close>.\<close>

definition py_lstrip :: "(char \<Rightarrow> bool) \<Rightarrow> string \<Rightarrow> string" where
  "py_lstrip P s = dropWhile P s"








text \<open>
  \<^verbatim>\<open>repr(s)\<close> of a string: double quotes when the string has a single quote and no
  double quote, single quotes otherwise; the quote and the backslash escaped, and
  the characters that are not printable written as \<^verbatim>\<open>\t\<close>, \<^verbatim>\<open>\n\<close>, \<^verbatim>\<open>\r\<close> or
  \<^verbatim>\<open>\xhh\<close>.
\<close>

definition repr_quote :: "string \<Rightarrow> char" where
  "repr_quote s =
     (if CHR 0x27 \<in> set s \<and> CHR 0x22 \<notin> set s then CHR 0x22 else CHR 0x27)"

definition repr_char :: "char \<Rightarrow> char \<Rightarrow> string" where
  "repr_char q c =
     (let n = (of_char c :: nat) in
      if c = q \<or> c = CHR 0x5C then [CHR 0x5C, c]
      else if c = CHR 0x09 then [CHR 0x5C, CHR ''t'']
      else if c = CHR 0x0A then [CHR 0x5C, CHR ''n'']
      else if c = CHR 0x0D then [CHR 0x5C, CHR ''r'']
      else if n < 32 \<or> (127 \<le> n \<and> n \<le> 160) \<or> n = 173
        then [CHR 0x5C, CHR ''x'', ''0123456789abcdef'' ! (n div 16),
              ''0123456789abcdef'' ! (n mod 16)]
      else [c])"

definition py_repr :: "string \<Rightarrow> string" where
  "py_repr s = repr_quote s # concat (map (repr_char (repr_quote s)) s) @ [repr_quote s]"

text \<open>\<^verbatim>\<open>f"{s}"\<close> for a set of strings: \<^verbatim>\<open>set()\<close> when empty, else the members' reprs in braces.\<close>

definition repr_set :: "string list \<Rightarrow> string" where
  "repr_set s =
     (if s = [] then ''set()'' else ''{'' @ py_join '', '' (map py_repr s) @ ''}'')"

subsection \<open>urlparse and extract_domain\<close>

text \<open>
  The scheme and the network location that \<^verbatim>\<open>urllib.parse.urlparse(url)\<close> returns,
  after \<^verbatim>\<open>urlsplit\<close> of CPython 3.12's \<^verbatim>\<open>Lib/urllib/parse.py\<close>: leading characters up
  to the space are stripped, tab, CR and LF removed; a scheme is the text before the
  first colon when that text is not empty, starts with an ASCII letter and has only
  scheme characters, and it is lower-cased; a network location follows \<^verbatim>\<open>//\<close> and
  ends before the first of \<^verbatim>\<open>/ ? #\<close>; unbalanced square brackets in it raise
  ValueError.
\<close>

definition scheme_char :: "char \<Rightarrow> bool" where
  "scheme_char c =
     (c \<in> set ''abcdefghijklmnopqrstuvwxyzABCDEFGHIJKLMNOPQRSTUVWXYZ0123456789+-.'')"

definition ascii_alpha :: "char \<Rightarrow> bool" where
  "ascii_alpha c =
     (c \<in> set ''abcdefghijklmnopqrstuvwxyzABCDEFGHIJKLMNOPQRSTUVWXYZ'')"

definition ascii_lower :: "char \<Rightarrow> char" where
  "ascii_lower c =
     (let n = (of_char c :: nat) in if 65 \<le> n \<and> n \<le> 90 then char_of (n + 32) else c)"

definition c0_control_or_space :: "char \<Rightarrow> bool" where
  "c0_control_or_space c = ((of_char c :: nat) \<le> 32)"

definition unsafe_url_byte :: "char \<Rightarrow> bool" where
  "unsafe_url_byte c = (c = CHR 0x09 \<or> c = CHR 0x0D \<or> c = CHR 0x0A)"

definition netloc_delim :: "char \<Rightarrow> bool" where
  "netloc_delim c = (c = CHR ''/'' \<or> c = CHR ''?'' \<or> c = CHR ''#'')"

text \<open>The scheme and what follows it: \<^verbatim>\<open>i = url.find(':')\<close> and the test on \<^verbatim>\<open>url[:i]\<close>.\<close>

definition split_scheme :: "string \<Rightarrow> string \<times> string" where
  "split_scheme url =
     (let i = length (takeWhile (\<lambda>c. c \<noteq> CHR '':'') url) in
      if CHR '':'' \<in> set url \<and> 0 < i \<and> ascii_alpha (hd url)
         \<and> list_all scheme_char (take i url)
      then (map ascii_lower (take i url), drop (Suc i) url)
      else ([], url))"

definition urlparse :: "world \<Rightarrow> string \<Rightarrow> exn + (string \<times> string)" where
  "urlparse w url0 =
     (let url = filter (\<lambda>c. \<not> unsafe_url_byte c) (py_lstrip c0_control_or_space url0);
          scheme = fst (split_scheme url);
          rest = snd (split_scheme url)
      in if take 2 rest = ''//'' then
           (let netloc = takeWhile (\<lambda>c. \<not> netloc_delim c) (drop 2 rest) in
            if (CHR ''['' \<in> set netloc \<and> CHR '']'' \<notin> set netloc)
               \<or> (CHR '']'' \<in> set netloc \<and> CHR ''['' \<notin> set netloc)
            then Inl (ValueError ''Invalid IPv6 URL'')
            else if netloc = [] then Inr (scheme, netloc)
            else (case netloc_check w netloc of
                    Some msg \<Rightarrow> Inl (ValueError msg)
                  | None \<Rightarrow> Inr (scheme, netloc)))
         else Inr (scheme, []))"

text \<open>\<^verbatim>\<open>extract_domain\<close>: \<^verbatim>\<open>f"{parsed.scheme}://{parsed.netloc}/"\<close>.\<close>

definition extract_domain :: "world \<Rightarrow> string \<Rightarrow> exn + string" where
  "extract_domain w url =
     (case urlparse w url of
        Inl e \<Rightarrow> Inl e
      | Inr (scheme, netloc) \<Rightarrow> Inr (scheme @ ''://'' @ netloc @ ''/''))"

text \<open>
  The shape of a scheme that \<open>split_scheme\<close> returns when it finds one: not empty,
  starting with an ASCII letter, made of lower-cased scheme characters.
\<close>

definition wf_scheme :: "string \<Rightarrow> bool" where
  "wf_scheme s = (s \<noteq> [] \<and> ascii_alpha (hd s) \<and> \<not> c0_control_or_space (hd s)
     \<and> (\<forall>c \<in> set s. scheme_char c \<and> c \<noteq> CHR '':'' \<and> \<not> unsafe_url_byte c \<and> ascii_lower c = c))"

subsection \<open>Documentation sources and the server's state\<close>

text \<open>
  \<^verbatim>\<open>class DocSource(TypedDict)\<close>: \<open>name\<close> and \<open>description\<close> are NotRequired, so a
  source may lack the key (\<open>None\<close>); \<open>llms_txt\<close> is required.
\<close>

record doc_source =
  name :: "string option"
  llms_txt :: string
  description :: "string option"

text \<open>
  The variables the tools of \<^verbatim>\<open>create_server\<close> close over. The two Python sets are
  lists without duplicates; the order of the list stands for the order in which
  Python iterates the set when it prints it.
\<close>

record registry =
  doc_sources :: "doc_source list"
  domains :: "string list"
  allowed_local_files :: "string list"

text \<open>\<^verbatim>\<open>s.add(x)\<close> and \<^verbatim>\<open>s.update(xs)\<close> on a set.\<close>

definition set_add :: "string \<Rightarrow> string list \<Rightarrow> string list" where
  "set_add x s = (if x \<in> set s then s else s @ [x])"

fun set_update :: "string list \<Rightarrow> string list \<Rightarrow> string list" where
  "set_update s [] = s"
| "set_update s (x # xs) = set_update (set_add x s) xs"

text \<open>\<^verbatim>\<open>_is_http_or_https\<close>: \<^verbatim>\<open>url.startswith(("http:", "https:"))\<close>.\<close>

definition is_http_or_https :: "string \<Rightarrow> bool" where
  "is_http_or_https url = (prefix ''http:'' url \<or> prefix ''https:'' url)"

text \<open>\<^verbatim>\<open>_normalize_path\<close>: \<^verbatim>\<open>path[7:]\<close> after a leading \<^verbatim>\<open>file://\<close>, then abspath.\<close>

definition normalize_path :: "world \<Rightarrow> string \<Rightarrow> string" where
  "normalize_path w path =
     (if prefix ''file://'' path then abspath w (drop 7 path) else abspath w path)"

subsection \<open>create_server\<close>

text \<open>\<^verbatim>\<open>set(xs)\<close>: the set built from the items in order.\<close>

definition py_set :: "string list \<Rightarrow> string list" where
  "py_set xs = set_update [] xs"

text \<open>
  The loop that checks the local sources: the first normalized path that does not
  exist, for which \<^verbatim>\<open>create_server\<close> raises FileNotFoundError.
\<close>

fun first_missing :: "world \<Rightarrow> doc_source list \<Rightarrow> string option" where
  "first_missing w [] = None"
| "first_missing w (entry # es) =
     (let abs_path = normalize_path w (llms_txt entry) in
      if \<not> path_exists w abs_path then Some abs_path else first_missing w es)"

text \<open>
  \<^verbatim>\<open>set(extract_domain(entry["llms_txt"]) for entry in remote_sources)\<close>; an
  exception of \<^verbatim>\<open>extract_domain\<close> leaves the comprehension.
\<close>

fun collect_domains :: "world \<Rightarrow> doc_source list \<Rightarrow> string list \<Rightarrow> exn + string list" where
  "collect_domains w [] acc = Inr acc"
| "collect_domains w (entry # es) acc =
     (case extract_domain w (llms_txt entry) of
        Inl e \<Rightarrow> Inl e
      | Inr d \<Rightarrow> collect_domains w es (set_add d acc))"

text \<open>
  \<^verbatim>\<open>create_server(doc_sources, allowed_domains=...)\<close>, up to the definition of the
  tools: the state they close over, or the exception raised. \<open>None\<close> and the empty
  list are the falsy values of \<^verbatim>\<open>allowed_domains\<close>.
\<close>

definition create_server ::
  "world \<Rightarrow> doc_source list \<Rightarrow> string list option \<Rightarrow> exn + registry" where
  "create_server w srcs allowed_domains =
     (let local_sources = filter (\<lambda>entry. \<not> is_http_or_https (llms_txt entry)) srcs;
          remote_sources = filter (\<lambda>entry. is_http_or_https (llms_txt entry)) srcs
      in case first_missing w local_sources of
           Some abs_path \<Rightarrow> Inl (FileNotFoundError (''Local file not found: '' @ abs_path))
         | None \<Rightarrow>
             (case collect_domains w remote_sources [] of
                Inl e \<Rightarrow> Inl e
              | Inr ds \<Rightarrow>
                  Inr \<lparr>doc_sources = srcs,
                       domains =
                         (case allowed_domains of
                            None \<Rightarrow> ds
                          | Some extra \<Rightarrow>
                              if extra = [] then ds
                              else if ''*'' \<in> set extra then [''*'']
                              else set_update ds extra),
                       allowed_local_files =
                         py_set (map (\<lambda>entry. normalize_path w (llms_txt entry))
                                   local_sources)\<rparr>))"

subsection \<open>The tools\<close>

text \<open>
  \<^verbatim>\<open>response = await httpx_client.get(url, timeout=timeout)\<close> followed by
  \<^verbatim>\<open>response.raise_for_status()\<close>.
\<close>

definition get_checked :: "world \<Rightarrow> string \<Rightarrow> exn + response" where
  "get_checked w url =
     (case client_get w url of Inl e \<Rightarrow> Inl e | Inr r \<Rightarrow> raise_for_status r)"

text \<open>The exceptions that \<^verbatim>\<open>except (httpx.HTTPStatusError, httpx.RequestError)\<close> catches.\<close>

fun is_httpx_error :: "exn \<Rightarrow> bool" where
  "is_httpx_error (HTTPStatusError m) = True"
| "is_httpx_error (RequestError m) = True"
| "is_httpx_error e = False"

text \<open>
  \<^verbatim>\<open>list_doc_sources()\<close>. The default of \<^verbatim>\<open>entry_.get("name", extract_domain(..))\<close>
  is evaluated before the lookup, so an exception of \<^verbatim>\<open>extract_domain\<close> leaves the
  tool also when the source has a name.
\<close>

fun list_doc_sources_loop :: "world \<Rightarrow> doc_source list \<Rightarrow> string \<Rightarrow> exn + string" where
  "list_doc_sources_loop w [] content = Inr content"
| "list_doc_sources_loop w (entry # es) content =
     (let url_or_path = llms_txt entry in
      if is_http_or_https url_or_path then
        (case extract_domain w url_or_path of
           Inl e \<Rightarrow> Inl e
         | Inr d \<Rightarrow>
             list_doc_sources_loop w es
               (content @ (case name entry of None \<Rightarrow> d | Some n \<Rightarrow> n)
                  @ [CHR 0x0A] @ ''URL: '' @ url_or_path @ [CHR 0x0A, CHR 0x0A]))
      else
        (let path = normalize_path w url_or_path in
         list_doc_sources_loop w es
           (content @ (case name entry of None \<Rightarrow> path | Some n \<Rightarrow> n)
              @ [CHR 0x0A] @ ''Path: '' @ path @ [CHR 0x0A, CHR 0x0A])))"

definition list_doc_sources :: "world \<Rightarrow> registry \<Rightarrow> exn + string" where
  "list_doc_sources w st = list_doc_sources_loop w (doc_sources st) []"

text \<open>
  \<^verbatim>\<open>fetch_docs(url)\<close>: what the call returns (\<open>Inr\<close>) or raises (\<open>Inl\<close>), and the I/O it
  performed. The state is read only.
\<close>

definition fetch_docs :: "world \<Rightarrow> registry \<Rightarrow> string \<Rightarrow> (exn + string) \<times> effect list" where
  "fetch_docs w st url =
     (if \<not> is_http_or_https url then
        (let abs_path = normalize_path w url in
         if abs_path \<notin> set (allowed_local_files st) then
           (Inl (ValueError (''Local file not allowed: '' @ abs_path @ ''. Allowed files: ''
                   @ repr_set (allowed_local_files st))), [])
         else
           (case read_text w abs_path of
              Inr content \<Rightarrow> (Inr (markdownify w content), [OpenFile abs_path])
            | Inl e \<Rightarrow> (Inr (''Error reading local file: '' @ str_exn e), [OpenFile abs_path])))
      else if ''*'' \<notin> set (domains st) \<and> \<not> list_ex (\<lambda>domain. prefix domain url) (domains st)
      then
        (Inr (''Error: URL not allowed. Must start with one of the following domains: ''
                @ py_join '', '' (domains st)), [])
      else
        (case get_checked w url of
           Inr response \<Rightarrow> (Inr (markdownify w (resp_text response)), [HttpGet url])
         | Inl e \<Rightarrow>
             (if is_httpx_error e
              then (Inr (''Encountered an HTTP error: '' @ str_exn e), [HttpGet url])
              else (Inl e, [HttpGet url]))))"

subsection \<open>Index discovery\<close>














subsection \<open>add_doc_source\<close>

definition add_error :: "string \<Rightarrow> exn \<Rightarrow> string" where
  "add_error llms_txt_url e =
     (if is_httpx_error e then ''Error validating URL '' @ llms_txt_url @ '': '' @ str_exn e
      else ''Error adding documentation source: '' @ str_exn e)"

definition add_success :: "string \<Rightarrow> string \<Rightarrow> string" where
  "add_success nm llms_txt_url =
     ''Successfully added documentation source '' @ [CHR 0x27] @ nm @ [CHR 0x27]
       @ '' with URL: '' @ llms_txt_url"

text \<open>
  \<^verbatim>\<open>add_doc_source(name, llms_txt_url, description)\<close>: the returned text, the I/O
  performed and the state after the call. The source is appended before
  \<^verbatim>\<open>extract_domain\<close> runs, so an exception of \<^verbatim>\<open>extract_domain\<close> leaves it appended.
\<close>

definition add_doc_source ::
  "world \<Rightarrow> registry \<Rightarrow> string \<Rightarrow> string \<Rightarrow> string \<Rightarrow> string \<times> effect list \<times> registry" where
  "add_doc_source w st nm llms_txt_url descr =
     (case get_checked w llms_txt_url of
        Inl e \<Rightarrow> (add_error llms_txt_url e, [HttpGet llms_txt_url], st)
      | Inr response \<Rightarrow>
          (let new_source = \<lparr>name = Some nm, llms_txt = llms_txt_url, description = Some descr\<rparr>;
               st1 = st\<lparr>doc_sources := doc_sources st @ [new_source]\<rparr>
           in if is_http_or_https llms_txt_url then
                (case extract_domain w llms_txt_url of
                   Inl e \<Rightarrow> (add_error llms_txt_url e, [HttpGet llms_txt_url], st1)
                 | Inr new_domain \<Rightarrow>
                     (add_success nm llms_txt_url, [HttpGet llms_txt_url],
                      if ''*'' \<notin> set (domains st1)
                      then st1\<lparr>domains := set_add new_domain (domains st1)\<rparr>
                      else st1))
              else (add_success nm llms_txt_url, [HttpGet llms_txt_url], st1)))"

subsection \<open>remove_doc_source\<close>

text \<open>
  The loop \<^verbatim>\<open>for i, source in enumerate(doc_sources)\<close>: the index of the first source
  with \<^verbatim>\<open>source.get("name") == name\<close>. A source without the key gives \<^verbatim>\<open>None\<close>,
  which equals no string.
\<close>

fun find_named :: "string \<Rightarrow> doc_source list \<Rightarrow> nat \<Rightarrow> nat option" where
  "find_named nm [] i = None"
| "find_named nm (s # ss) i =
     (if name s = Some nm then Some i else find_named nm ss (Suc i))"

text \<open>\<^verbatim>\<open>source.get("name", "unnamed")\<close>.\<close>

definition name_or_unnamed :: "doc_source \<Rightarrow> string" where
  "name_or_unnamed s = (case name s of None \<Rightarrow> ''unnamed'' | Some n \<Rightarrow> n)"

text \<open>
  \<^verbatim>\<open>remove_doc_source(name)\<close>: the returned text and the state after the call;
  \<^verbatim>\<open>doc_sources.pop(i)\<close> removes the source at index \<open>i\<close>.
\<close>

definition remove_doc_source :: "registry \<Rightarrow> string \<Rightarrow> string \<times> registry" where
  "remove_doc_source st nm =
     (case find_named nm (doc_sources st) 0 of
        Some i \<Rightarrow>
          (let removed_source = doc_sources st ! i in
           (''Successfully removed documentation source '' @ [CHR 0x27] @ nm @ [CHR 0x27]
              @ '' (URL: '' @ llms_txt removed_source @ '')'',
            st\<lparr>doc_sources := take i (doc_sources st) @ drop (Suc i) (doc_sources st)\<rparr>))
      | None \<Rightarrow>
          (''Documentation source '' @ [CHR 0x27] @ nm @ [CHR 0x27]
             @ '' not found. Available sources: ''
             @ py_join '', '' (map name_or_unnamed (doc_sources st)),
           st))"

subsection \<open>Sequences of registry mutations\<close>

text \<open>
  A call of one of the two tools that change the state; a call of \<^verbatim>\<open>add_doc_source\<close>
  carries the outside world it runs in.
\<close>

datatype op = AddDocSource world string string string | RemoveDocSource string

fun apply_op :: "registry \<Rightarrow> op \<Rightarrow> registry" where
  "apply_op st (AddDocSource w nm llms_txt_url descr) =
     snd (snd (add_doc_source w st nm llms_txt_url descr))"
| "apply_op st (RemoveDocSource nm) = snd (remove_doc_source st nm)"

fun run_ops :: "registry \<Rightarrow> op list \<Rightarrow> registry" where
  "run_ops st [] = st"
| "run_ops st (x # xs) = run_ops (apply_op st x) xs"

text \<open>
  Invariant I2 of the specification: every source whose reference is not remote has
  its normalized path in \<^verbatim>\<open>allowed_local_files\<close>.
\<close>

definition local_paths_allowed :: "world \<Rightarrow> registry \<Rightarrow> bool" where
  "local_paths_allowed w st =
     list_all (\<lambda>s. is_http_or_https (llms_txt s)
                    \<or> normalize_path w (llms_txt s) \<in> set (allowed_local_files st))
       (doc_sources st)"

text \<open>
  A mutation that appends no local reference: a removal, or an addition whose URL is
  remote or whose validating GET fails.
\<close>

fun adds_no_local :: "op \<Rightarrow> bool" where
  "adds_no_local (AddDocSource w nm llms_txt_url descr) =
     (is_http_or_https llms_txt_url \<or> isl (get_checked w llms_txt_url))"
| "adds_no_local (RemoveDocSource nm) = True"

subsection \<open>A concrete outside world\<close>

text \<open>
  \<^verbatim>\<open>os.path.abspath\<close> of posixpath for the working directory \<open>cwd\<close>:
  \<^verbatim>\<open>normpath(join(cwd, path))\<close>.
\<close>

fun split_slash :: "string \<Rightarrow> string list" where
  "split_slash [] = [[]]"
| "split_slash (c # cs) =
     (if c = CHR ''/'' then [] # split_slash cs
      else (case split_slash cs of [] \<Rightarrow> [[c]] | x # xs \<Rightarrow> (c # x) # xs))"

fun norm_comps :: "bool \<Rightarrow> string list \<Rightarrow> string list \<Rightarrow> string list" where
  "norm_comps initial_slashes [] new_comps = new_comps"
| "norm_comps initial_slashes (part # cs) new_comps =
     (if part = [] \<or> part = ''.'' then norm_comps initial_slashes cs new_comps
      else if part \<noteq> ''..'' \<or> (\<not> initial_slashes \<and> new_comps = [])
              \<or> (new_comps \<noteq> [] \<and> last new_comps = ''..'')
        then norm_comps initial_slashes cs (new_comps @ [part])
      else if new_comps \<noteq> [] then norm_comps initial_slashes cs (butlast new_comps)
      else norm_comps initial_slashes cs new_comps)"

definition normpath :: "string \<Rightarrow> string" where
  "normpath path =
     (if path = [] then ''.''
      else
        (let initial_slashes =
               (if prefix ''/'' path
                then (if prefix ''//'' path \<and> \<not> prefix ''///'' path then 2 else 1 :: nat)
                else 0);
             p = replicate initial_slashes CHR ''/''
                   @ py_join ''/'' (norm_comps (initial_slashes \<noteq> 0) (split_slash path) [])
         in if p = [] then ''.'' else p))"

definition posix_abspath :: "string \<Rightarrow> string \<Rightarrow> string" where
  "posix_abspath cwd path =
     normpath (if prefix ''/'' path then path
               else if cwd = [] \<or> last cwd = CHR ''/'' then cwd @ path
               else cwd @ ''/'' @ path)"

text \<open>
  A small world: the working directory is \<^verbatim>\<open>/srv\<close>, one file exists, and the HTTP
  client knows an index page and two documents, one URL that answers 404, and one
  host addressed with an upper-case scheme (httpx lower-cases the scheme of the
  request); every other request fails in transport.
\<close>

definition demo_index :: string where
  "demo_index =
     ''<a href='' @ [CHR 0x22] @ ''https://example.com/a'' @ [CHR 0x22] @ ''>A</a> ''
       @ ''[b](https://evil.test/b) (https://example.com/c)''"

definition demo_get :: "string \<Rightarrow> exn + response" where
  "demo_get url =
     (if url = ''https://example.com/llms.txt'' \<or> url = ''HTTPS://EXAMPLE.COM/llms.txt''
        then Inr \<lparr>status_code = 200, resp_text = demo_index, status_message = []\<rparr>
      else if url = ''https://example.com/a'' \<or> url = ''https://example.com/c''
        then Inr \<lparr>status_code = 200, resp_text = ''<p>page</p>'', status_message = []\<rparr>
      else if url = ''https://example.com/gone''
        then Inr \<lparr>status_code = 404, resp_text = [], status_message = ''404 Not Found''\<rparr>
      else Inl (RequestError ''connection failed''))"

definition demo_world :: world where
  "demo_world =
     \<lparr>abspath = posix_abspath ''/srv'',
      path_exists = (\<lambda>p. p = ''/srv/docs/llms.txt''),
      read_text = (\<lambda>p. if p = ''/srv/docs/llms.txt'' then Inr ''# Docs''
                        else Inl (FileNotFoundError ''No such file or directory'')),
      client_get = demo_get,
      markdownify = (\<lambda>s. s),
      netloc_check = (\<lambda>n. None)\<rparr>"

definition demo_sources :: "doc_source list" where
  "demo_sources =
     [\<lparr>name = Some ''Example'', llms_txt = ''https://example.com/llms.txt'',
       description = None\<rparr>,
      \<lparr>name = None, llms_txt = ''docs/llms.txt'', description = None\<rparr>]"

definition demo_registry :: registry where
  "demo_registry =
     \<lparr>doc_sources = demo_sources,
      domains = [''https://example.com/''],
      allowed_local_files = [''/srv/docs/llms.txt'']\<rparr>"

section \<open>Properties\<close>

subsection \<open>Helper lemmas\<close>

lemma set_set_add: "set (set_add x s) = insert x (set s)"
  by (auto simp: set_add_def)

lemma set_set_update: "set (set_update s xs) = set s \<union> set xs"
  by (induction xs arbitrary: s) (auto simp: set_set_add)

lemma remove_doc_source_frame:
  "domains (snd (remove_doc_source st nm)) = domains st
   \<and> allowed_local_files (snd (remove_doc_source st nm)) = allowed_local_files st"
  by (simp add: remove_doc_source_def Let_def split: option.splits)

lemma remove_doc_source_sources:
  "set (doc_sources (snd (remove_doc_source st nm))) \<subseteq> set (doc_sources st)"
  by (auto simp: remove_doc_source_def Let_def split: option.splits
           dest: in_set_takeD in_set_dropD)

lemma add_doc_source_files:
  "allowed_local_files (snd (snd (add_doc_source w st nm u d))) = allowed_local_files st"
  by (simp add: add_doc_source_def Let_def split: sum.splits)

lemma add_doc_source_domains:
  "domains (snd (snd (add_doc_source w st nm u d))) = domains st
   \<or> (''*'' \<notin> set (domains st) \<and> is_http_or_https u
       \<and> (\<exists>nd. extract_domain w u = Inr nd
             \<and> domains (snd (snd (add_doc_source w st nm u d))) = set_add nd (domains st)))"
  by (simp add: add_doc_source_def Let_def split: sum.splits)

lemma apply_op_files: "allowed_local_files (apply_op st x) = allowed_local_files st"
  by (cases x) (simp_all add: add_doc_source_files remove_doc_source_frame)

lemma apply_op_domains_mono: "set (domains st) \<subseteq> set (domains (apply_op st x))"
proof (cases x)
  case (AddDocSource w nm u d)
  from add_doc_source_domains [of w st nm u d] show ?thesis
    unfolding AddDocSource by (auto simp: set_set_add)
next
  case (RemoveDocSource nm)
  then show ?thesis by (simp add: remove_doc_source_frame)
qed

lemma run_ops_files: "allowed_local_files (run_ops st ops) = allowed_local_files st"
  by (induction ops arbitrary: st) (simp_all add: apply_op_files)

lemma run_ops_domains_mono: "set (domains st) \<subseteq> set (domains (run_ops st ops))"
proof (induction ops arbitrary: st)
  case Nil
  show ?case by simp
next
  case (Cons x xs)
  have "set (domains st) \<subseteq> set (domains (apply_op st x))" by (rule apply_op_domains_mono)
  also have "\<dots> \<subseteq> set (domains (run_ops (apply_op st x) xs))" by (rule Cons.IH)
  finally show ?case by simp
qed

lemma apply_op_wildcard: "domains st = [''*''] \<Longrightarrow> domains (apply_op st x) = [''*'']"
proof (cases x)
  case (AddDocSource w nm u d)
  assume "domains st = [''*'']"
  with add_doc_source_domains [of w st nm u d] show ?thesis
    unfolding AddDocSource by auto
next
  case (RemoveDocSource nm)
  assume "domains st = [''*'']"
  with RemoveDocSource show ?thesis by (simp add: remove_doc_source_frame)
qed

lemma run_ops_wildcard: "domains st = [''*''] \<Longrightarrow> domains (run_ops st ops) = [''*'']"
  by (induction ops arbitrary: st) (simp_all add: apply_op_wildcard)

lemma create_server_wildcard:
  assumes "create_server w srcs (Some extra) = Inr st" and "''*'' \<in> set extra"
  shows "domains st = [''*'']"
  using assms
  by (auto simp: create_server_def Let_def split: option.splits sum.splits)

lemma fetch_docs_wildcard:
  assumes "''*'' \<in> set (domains st)" and "is_http_or_https u"
  shows "fetch_docs w st u =
           (case get_checked w u of
              Inr response \<Rightarrow> (Inr (markdownify w (resp_text response)), [HttpGet u])
            | Inl e \<Rightarrow> (if is_httpx_error e
                        then Inr (''Encountered an HTTP error: '' @ str_exn e)
                        else Inl e, [HttpGet u]))"
  using assms by (simp add: fetch_docs_def split: sum.splits)

lemma extract_domain_not_star: "extract_domain w u = Inr d \<Longrightarrow> d \<noteq> ''*''"
  by (auto simp: extract_domain_def split: sum.splits prod.splits)

lemma collect_domains_no_star:
  "collect_domains w es acc = Inr ds \<Longrightarrow> ''*'' \<notin> set acc \<Longrightarrow> ''*'' \<notin> set ds"
proof (induction es arbitrary: acc)
  case Nil
  then show ?case by simp
next
  case (Cons entry es)
  from Cons.prems(1) obtain d where d: "extract_domain w (llms_txt entry) = Inr d"
    and rest: "collect_domains w es (set_add d acc) = Inr ds"
    by (auto split: sum.splits)
  from extract_domain_not_star [OF d] Cons.prems(2)
  have "''*'' \<notin> set (set_add d acc)" by (simp add: set_set_add)
  from Cons.IH [OF rest this] show ?case .
qed

lemma create_server_no_star:
  assumes "create_server w srcs extra = Inr st"
    and "''*'' \<notin> set (case extra of None \<Rightarrow> [] | Some xs \<Rightarrow> xs)"
  shows "''*'' \<notin> set (domains st)"
proof -
  from assms(1) obtain ds where
    ds: "collect_domains w (filter (\<lambda>entry. is_http_or_https (llms_txt entry)) srcs) [] = Inr ds"
    and st: "domains st = (case extra of None \<Rightarrow> ds
               | Some xs \<Rightarrow> if xs = [] then ds else if ''*'' \<in> set xs then [''*'']
                            else set_update ds xs)"
    by (auto simp: create_server_def Let_def split: option.splits sum.splits)
  from collect_domains_no_star [OF ds] have "''*'' \<notin> set ds" by simp
  with st assms(2) show ?thesis
    by (auto simp: set_set_update split: option.splits if_splits)
qed

lemma apply_op_no_star: "''*'' \<notin> set (domains st) \<Longrightarrow> ''*'' \<notin> set (domains (apply_op st x))"
proof (cases x)
  case (AddDocSource w nm u d)
  assume "''*'' \<notin> set (domains st)"
  with add_doc_source_domains [of w st nm u d] show ?thesis
    unfolding AddDocSource by (auto simp: set_set_add dest: extract_domain_not_star)
next
  case (RemoveDocSource nm)
  assume "''*'' \<notin> set (domains st)"
  with RemoveDocSource show ?thesis by (simp add: remove_doc_source_frame)
qed

lemma run_ops_no_star: "''*'' \<notin> set (domains st) \<Longrightarrow> ''*'' \<notin> set (domains (run_ops st ops))"
  by (induction ops arbitrary: st) (simp_all add: apply_op_no_star)

lemma fetch_docs_rejects:
  assumes "''*'' \<notin> set (domains st)" and "is_http_or_https u"
    and "\<forall>d \<in> set (domains st). \<not> prefix d u"
  shows "fetch_docs w st u =
           (Inr (''Error: URL not allowed. Must start with one of the following domains: ''
                   @ py_join '', '' (domains st)), [])"
  using assms by (simp add: fetch_docs_def list_ex_iff)

lemma py_join_member:
  "x \<in> set xs \<Longrightarrow> \<exists>pre post. py_join sep xs = pre @ x @ post"
proof (induction sep xs rule: py_join.induct)
  case (1 sep)
  then show ?case by simp
next
  case (2 sep y)
  then have "py_join sep [y] = [] @ x @ []" by simp
  then show ?case by blast
next
  case (3 sep y z zs)
  show ?case
  proof (cases "x = y")
    case True
    then have "py_join sep (y # z # zs) = [] @ x @ (sep @ py_join sep (z # zs))" by simp
    then show ?thesis by blast
  next
    case False
    with "3.prems" have "x \<in> set (z # zs)" by simp
    from "3.IH" [OF this] obtain pre post where "py_join sep (z # zs) = pre @ x @ post"
      by blast
    then have "py_join sep (y # z # zs) = (y @ sep @ pre) @ x @ post" by simp
    then show ?thesis by blast
  qed
qed

lemma repr_set_member:
  assumes "p \<in> set s"
  shows "\<exists>pre post. repr_set s = pre @ py_repr p @ post"
proof -
  from assms have "py_repr p \<in> set (map py_repr s)" by simp
  from py_join_member [OF this] obtain pre post where
    "py_join '', '' (map py_repr s) = pre @ py_repr p @ post" by blast
  moreover from assms have "s \<noteq> []" by auto
  ultimately have "repr_set s = (''{'' @ pre) @ py_repr p @ (post @ ''}'')"
    by (simp add: repr_set_def)
  then show ?thesis by blast
qed

lemma set_py_set: "set (py_set xs) = set xs"
  by (simp add: py_set_def set_set_update)

lemma create_server_local_paths:
  assumes "create_server w srcs extra = Inr st"
  shows "local_paths_allowed w st"
proof -
  from assms have src: "doc_sources st = srcs"
    and files: "allowed_local_files st =
          py_set (map (\<lambda>entry. normalize_path w (llms_txt entry))
                    (filter (\<lambda>entry. \<not> is_http_or_https (llms_txt entry)) srcs))"
    by (auto simp: create_server_def Let_def split: option.splits sum.splits)
  show ?thesis
    unfolding local_paths_allowed_def src files
    by (auto simp: list_all_iff set_py_set)
qed

lemma apply_op_local_paths:
  assumes "local_paths_allowed w st" and "adds_no_local x"
  shows "local_paths_allowed w (apply_op st x)"
proof (cases x)
  case (AddDocSource w' nm u d)
  with assms show ?thesis
    by (auto simp: local_paths_allowed_def add_doc_source_def Let_def list_all_iff
             split: sum.splits)
next
  case (RemoveDocSource nm)
  with assms remove_doc_source_sources [of st nm] show ?thesis
    by (auto simp: local_paths_allowed_def list_all_iff remove_doc_source_frame)
qed

lemma find_named_bounds:
  "find_named nm ss i = Some j \<Longrightarrow> i \<le> j \<and> j < i + length ss"
proof (induction ss arbitrary: i)
  case Nil
  then show ?case by simp
next
  case (Cons s ss)
  show ?case
  proof (cases "name s = Some nm")
    case True
    with Cons.prems show ?thesis by simp
  next
    case False
    with Cons.prems have "find_named nm ss (Suc i) = Some j" by simp
    from Cons.IH [OF this] show ?thesis by simp
  qed
qed

lemma find_named_hit:
  "find_named nm ss i = Some j \<Longrightarrow> name (ss ! (j - i)) = Some nm"
proof (induction ss arbitrary: i)
  case Nil
  then show ?case by simp
next
  case (Cons s ss)
  show ?case
  proof (cases "name s = Some nm")
    case True
    with Cons.prems show ?thesis by simp
  next
    case False
    with Cons.prems have f: "find_named nm ss (Suc i) = Some j" by simp
    from find_named_bounds [OF f] have "Suc i \<le> j" by simp
    then have "j - i = Suc (j - Suc i)" by simp
    with Cons.IH [OF f] show ?thesis by simp
  qed
qed

lemma find_named_none:
  "find_named nm ss i = None \<longleftrightarrow> (\<forall>s \<in> set ss. name s \<noteq> Some nm)"
  by (induction ss arbitrary: i) auto

lemma filter_pop:
  assumes "i < length xs" and "\<not> P (xs ! i)"
  shows "filter P (take i xs @ drop (Suc i) xs) = filter P xs"
proof -
  have "xs = take i xs @ xs ! i # drop (Suc i) xs"
    using assms(1) by (simp add: id_take_nth_drop)
  then have "filter P xs = filter P (take i xs @ xs ! i # drop (Suc i) xs)"
    by simp
  also have "\<dots> = filter P (take i xs @ drop (Suc i) xs)"
    using assms(2) by simp
  finally show ?thesis by simp
qed





lemma scheme_chars_checked:
  "list_all (\<lambda>c. scheme_char (ascii_lower c) \<and> ascii_lower c \<noteq> CHR '':''
                 \<and> \<not> unsafe_url_byte (ascii_lower c)
                 \<and> ascii_lower (ascii_lower c) = ascii_lower c)
     ''abcdefghijklmnopqrstuvwxyzABCDEFGHIJKLMNOPQRSTUVWXYZ0123456789+-.''"
  by code_simp

lemma alpha_chars_checked:
  "list_all (\<lambda>c. ascii_alpha (ascii_lower c) \<and> \<not> c0_control_or_space (ascii_lower c))
     ''abcdefghijklmnopqrstuvwxyzABCDEFGHIJKLMNOPQRSTUVWXYZ''"
  by code_simp

lemma scheme_char_lower:
  assumes "scheme_char c"
  shows "scheme_char (ascii_lower c)" and "ascii_lower c \<noteq> CHR '':''"
    and "\<not> unsafe_url_byte (ascii_lower c)" and "ascii_lower (ascii_lower c) = ascii_lower c"
  using assms scheme_chars_checked unfolding scheme_char_def list_all_iff by blast+

lemma ascii_alpha_lower:
  assumes "ascii_alpha c"
  shows "ascii_alpha (ascii_lower c)" and "\<not> c0_control_or_space (ascii_lower c)"
  using assms alpha_chars_checked unfolding ascii_alpha_def list_all_iff by blast+

lemma split_scheme_cases:
  "split_scheme url = ([], url)
   \<or> (CHR '':'' \<in> set url \<and> takeWhile (\<lambda>c. c \<noteq> CHR '':'') url \<noteq> [] \<and> ascii_alpha (hd url)
       \<and> list_all scheme_char (takeWhile (\<lambda>c. c \<noteq> CHR '':'') url)
       \<and> split_scheme url = (map ascii_lower (takeWhile (\<lambda>c. c \<noteq> CHR '':'') url),
                              drop (Suc (length (takeWhile (\<lambda>c. c \<noteq> CHR '':'') url))) url))"
proof -
  have t: "take (length (takeWhile (\<lambda>c. c \<noteq> CHR '':'') url)) url = takeWhile (\<lambda>c. c \<noteq> CHR '':'') url"
    by (rule takeWhile_eq_take [symmetric])
  show ?thesis
    unfolding split_scheme_def Let_def t by simp
qed

lemma split_scheme_wf:
  assumes "fst (split_scheme url) \<noteq> []"
  shows "wf_scheme (fst (split_scheme url))"
proof -
  define p where "p = takeWhile (\<lambda>c. c \<noteq> CHR '':'') url"
  from split_scheme_cases [of url]
  have "split_scheme url = ([], url)
        \<or> (p \<noteq> [] \<and> ascii_alpha (hd url) \<and> list_all scheme_char p
            \<and> split_scheme url = (map ascii_lower p, drop (Suc (length p)) url))"
    unfolding p_def by blast
  with assms have ne: "p \<noteq> []" and al: "ascii_alpha (hd url)"
    and sc: "list_all scheme_char p" and s: "fst (split_scheme url) = map ascii_lower p"
    by auto
  have "hd p = hd url"
  proof (cases url)
    case Nil
    with ne show ?thesis by (simp add: p_def)
  next
    case (Cons x xs)
    with ne show ?thesis by (cases "x \<noteq> CHR '':''") (simp_all add: p_def)
  qed
  with ne have h2: "hd (map ascii_lower p) = ascii_lower (hd url)"
    by (simp add: hd_map)
  have all: "\<forall>c \<in> set (map ascii_lower p).
      scheme_char c \<and> c \<noteq> CHR '':'' \<and> \<not> unsafe_url_byte c \<and> ascii_lower c = c"
  proof
    fix c assume "c \<in> set (map ascii_lower p)"
    then obtain x where x: "x \<in> set p" and c: "c = ascii_lower x" by auto
    from sc x have "scheme_char x" by (simp add: list_all_iff)
    from scheme_char_lower [OF this]
    show "scheme_char c \<and> c \<noteq> CHR '':'' \<and> \<not> unsafe_url_byte c \<and> ascii_lower c = c"
      unfolding c by blast
  qed
  from ne have a1: "map ascii_lower p \<noteq> []" by simp
  from ascii_alpha_lower [OF al]
  have a2: "ascii_alpha (hd (map ascii_lower p))"
    and a3: "\<not> c0_control_or_space (hd (map ascii_lower p))"
    unfolding h2 by blast+
  from a1 a2 a3 all show ?thesis
    unfolding s wf_scheme_def by blast
qed

lemma split_scheme_resynth:
  assumes "wf_scheme s"
  shows "split_scheme (s @ CHR '':'' # rest) = (s, rest)"
proof -
  from assms have nc: "\<forall>c \<in> set s. c \<noteq> CHR '':''" and ne: "s \<noteq> []"
    and al: "ascii_alpha (hd s)" and sc: "list_all scheme_char s"
    and lo: "map ascii_lower s = s"
    by (auto simp: wf_scheme_def list_all_iff intro: map_idI)
  from nc have tw: "takeWhile (\<lambda>c. c \<noteq> CHR '':'') (s @ CHR '':'' # rest) = s"
    by (simp add: takeWhile_append2)
  from ne have hd: "hd (s @ CHR '':'' # rest) = hd s" by simp
  from ne al sc lo show ?thesis
    unfolding split_scheme_def tw hd Let_def by simp
qed

lemma split_scheme_colon_first: "split_scheme (CHR '':'' # rest) = ([], CHR '':'' # rest)"
  by (simp add: split_scheme_def)

lemma urlparse_shape:
  assumes "urlparse w url0 = Inr (s, n)"
  shows "(s = [] \<or> wf_scheme s)
         \<and> (\<forall>c \<in> set n. \<not> netloc_delim c \<and> \<not> unsafe_url_byte c)
         \<and> \<not> ((CHR ''['' \<in> set n \<and> CHR '']'' \<notin> set n) \<or> (CHR '']'' \<in> set n \<and> CHR ''['' \<notin> set n))
         \<and> (n \<noteq> [] \<longrightarrow> netloc_check w n = None)"
proof -
  define url where "url = filter (\<lambda>c. \<not> unsafe_url_byte c) (py_lstrip c0_control_or_space url0)"
  define rest where "rest = snd (split_scheme url)"
  have s: "s = fst (split_scheme url)"
    using assms unfolding urlparse_def url_def Let_def
    by (auto split: if_splits option.splits)
  have a: "s = [] \<or> wf_scheme s"
    unfolding s using split_scheme_wf by blast
  have safe_url: "\<forall>c \<in> set url. \<not> unsafe_url_byte c" by (simp add: url_def)
  have "set rest \<subseteq> set url"
    by (auto simp: rest_def split_scheme_def Let_def dest: in_set_dropD)
  with safe_url have safe_rest: "\<forall>c \<in> set rest. \<not> unsafe_url_byte c" by blast
  have n: "n = [] \<or> n = takeWhile (\<lambda>c. \<not> netloc_delim c) (drop 2 rest)"
    using assms unfolding urlparse_def Let_def url_def [symmetric] rest_def [symmetric]
    by (auto split: if_splits option.splits)
  have b: "\<forall>c \<in> set n. \<not> netloc_delim c \<and> \<not> unsafe_url_byte c"
  proof
    fix c assume c: "c \<in> set n"
    with n have eq: "n = takeWhile (\<lambda>c. \<not> netloc_delim c) (drop 2 rest)" by auto
    from c have "\<not> netloc_delim c" unfolding eq by (rule set_takeWhileD [THEN conjunct2])
    moreover from c have "c \<in> set rest"
      unfolding eq by (auto dest: set_takeWhileD in_set_dropD)
    ultimately show "\<not> netloc_delim c \<and> \<not> unsafe_url_byte c" using safe_rest by blast
  qed
  have c: "\<not> ((CHR ''['' \<in> set n \<and> CHR '']'' \<notin> set n) \<or> (CHR '']'' \<in> set n \<and> CHR ''['' \<notin> set n))"
    and d: "n \<noteq> [] \<longrightarrow> netloc_check w n = None"
    using assms unfolding urlparse_def Let_def url_def [symmetric] rest_def [symmetric]
    by (auto split: if_splits option.splits)
  from a b c d show ?thesis by blast
qed

lemma urlparse_resynth:
  assumes "urlparse w url0 = Inr (s, n)" and "s \<noteq> []"
  shows "urlparse w (s @ ''://'' @ n @ ''/'') = Inr (s, n)"
proof -
  from urlparse_shape [OF assms(1)] assms(2) have wf: "wf_scheme s"
    and nd: "\<forall>c \<in> set n. \<not> netloc_delim c \<and> \<not> unsafe_url_byte c"
    and br: "\<not> ((CHR ''['' \<in> set n \<and> CHR '']'' \<notin> set n) \<or> (CHR '']'' \<in> set n \<and> CHR ''['' \<notin> set n))"
    and ck: "n \<noteq> [] \<longrightarrow> netloc_check w n = None"
    by blast+
  from wf have hd: "\<not> c0_control_or_space (hd s)" and ne: "s \<noteq> []"
    and ss: "\<forall>c \<in> set s. \<not> unsafe_url_byte c"
    by (auto simp: wf_scheme_def)
  from ne hd have strip: "py_lstrip c0_control_or_space (s @ ''://'' @ n @ ''/'') = s @ ''://'' @ n @ ''/''"
    by (cases s) (simp_all add: py_lstrip_def)
  from ss nd have filt: "filter (\<lambda>c. \<not> unsafe_url_byte c) (s @ ''://'' @ n @ ''/'') = s @ ''://'' @ n @ ''/''"
    by (auto simp: filter_id_conv unsafe_url_byte_def)
  have sp: "split_scheme (s @ ''://'' @ n @ ''/'') = (s, ''//'' @ n @ ''/'')"
    using split_scheme_resynth [OF wf, of "''//'' @ n @ ''/''"] by simp
  from nd have tw: "takeWhile (\<lambda>c. \<not> netloc_delim c) (n @ ''/'') = n"
    by (simp add: takeWhile_append2 netloc_delim_def)
  show ?thesis
    unfolding urlparse_def strip filt sp Let_def
    using br ck nd by (auto simp: takeWhile_append2 netloc_delim_def)
qed

lemma urlparse_no_scheme:
  assumes "\<forall>c \<in> set n. \<not> unsafe_url_byte c"
  shows "urlparse w (''://'' @ n @ ''/'') = Inr ([], [])"
proof -
  have strip: "py_lstrip c0_control_or_space (''://'' @ n @ ''/'') = ''://'' @ n @ ''/''"
    by (simp add: py_lstrip_def c0_control_or_space_def)
  from assms
  have filt: "filter (\<lambda>c. \<not> unsafe_url_byte c) (''://'' @ n @ ''/'') = ''://'' @ n @ ''/''"
    by (auto simp: filter_id_conv unsafe_url_byte_def)
  have sp: "split_scheme (''://'' @ n @ ''/'') = ([], ''://'' @ n @ ''/'')"
    using split_scheme_colon_first [of "''//'' @ n @ ''/''"] by simp
  show ?thesis
    unfolding urlparse_def strip filt sp Let_def by simp
qed

lemma is_http_scheme:
  assumes "is_http_or_https url" and "urlparse w url = Inr (s, n)"
  shows "s \<noteq> []"
proof -
  define u where "u = filter (\<lambda>c. \<not> unsafe_url_byte c) (py_lstrip c0_control_or_space url)"
  from assms(1) obtain t where "url = ''http:'' @ t \<or> url = ''https:'' @ t"
    by (auto simp: is_http_or_https_def prefix_def)
  then have "u = ''http:'' @ filter (\<lambda>c. \<not> unsafe_url_byte c) t
             \<or> u = ''https:'' @ filter (\<lambda>c. \<not> unsafe_url_byte c) t"
    by (auto simp: u_def py_lstrip_def c0_control_or_space_def unsafe_url_byte_def)
  then have "fst (split_scheme u) \<noteq> []"
    by (auto simp: split_scheme_def scheme_char_def ascii_alpha_def)
  moreover from assms(2) have "s = fst (split_scheme u)"
    unfolding urlparse_def u_def Let_def by (auto split: if_splits option.splits)
  ultimately show ?thesis by simp
qed

subsection \<open>C1: a remote fetch needs an allowed origin as a prefix\<close>

text \<open>
  C1. Take a registry that \<^verbatim>\<open>create_server\<close> built from extra origins without the
  wildcard \<^verbatim>\<open>*\<close>, after any sequence of \<^verbatim>\<open>add_doc_source\<close> and \<^verbatim>\<open>remove_doc_source\<close>
  calls, and a remote URL. If \<^verbatim>\<open>fetch_docs\<close> performs any I/O for it (a successful
  fetch performs the GET), some member of \<^verbatim>\<open>domains\<close> is a prefix of the URL. If no
  member of \<^verbatim>\<open>domains\<close> is a prefix of the URL, \<^verbatim>\<open>fetch_docs\<close> returns the text
  \<^verbatim>\<open>Error: URL not allowed. Must start with one of the following domains:\<close> followed
  by the members of \<^verbatim>\<open>domains\<close> joined with commas, and performs no GET.
\<close>

theorem fetch_docs_origin_containment:
  assumes "create_server w0 srcs extra = Inr st0"
    and "''*'' \<notin> set (case extra of None \<Rightarrow> [] | Some xs \<Rightarrow> xs)"
    and "is_http_or_https url"
  shows "(snd (fetch_docs w (run_ops st0 ops) url) \<noteq> [] \<longrightarrow>
            (\<exists>d \<in> set (domains (run_ops st0 ops)). prefix d url))
         \<and> ((\<forall>d \<in> set (domains (run_ops st0 ops)). \<not> prefix d url) \<longrightarrow>
              fetch_docs w (run_ops st0 ops) url =
                (Inr (''Error: URL not allowed. Must start with one of the following domains: ''
                        @ py_join '', '' (domains (run_ops st0 ops))), []))"
proof -
  from create_server_no_star [OF assms(1,2)]
  have ns: "''*'' \<notin> set (domains (run_ops st0 ops))" by (rule run_ops_no_star)
  have rej: "(\<forall>d \<in> set (domains (run_ops st0 ops)). \<not> prefix d url) \<longrightarrow>
      fetch_docs w (run_ops st0 ops) url =
        (Inr (''Error: URL not allowed. Must start with one of the following domains: ''
                @ py_join '', '' (domains (run_ops st0 ops))), [])"
    using fetch_docs_rejects [OF ns assms(3)] by blast
  then have "snd (fetch_docs w (run_ops st0 ops) url) \<noteq> [] \<longrightarrow>
      (\<exists>d \<in> set (domains (run_ops st0 ops)). prefix d url)"
    by auto
  with rej show ?thesis by blast
qed

theorem fetch_docs_origin_containment_witness:
  "create_server demo_world demo_sources None = Inr demo_registry
   \<and> is_http_or_https ''https://other.test/x''
   \<and> fetch_docs demo_world demo_registry ''https://other.test/x'' =
       (Inr ''Error: URL not allowed. Must start with one of the following domains: https://example.com/'',
        [])"
proof -
  have c: "create_server demo_world demo_sources None = Inr demo_registry" by code_simp
  have s: "''*'' \<notin> set (case None :: string list option of None \<Rightarrow> [] | Some xs \<Rightarrow> xs)" by simp
  have h: "is_http_or_https ''https://other.test/x''" by (simp add: is_http_or_https_def)
  have n: "\<forall>d \<in> set (domains (run_ops demo_registry [])). \<not> prefix d ''https://other.test/x''"
    by (simp add: demo_registry_def)
  from fetch_docs_origin_containment [OF c s h, of demo_world "[]"] n
  have "fetch_docs demo_world (run_ops demo_registry []) ''https://other.test/x'' =
          (Inr (''Error: URL not allowed. Must start with one of the following domains: ''
                  @ py_join '', '' (domains (run_ops demo_registry []))), [])"
    by blast
  then have "fetch_docs demo_world demo_registry ''https://other.test/x'' =
       (Inr ''Error: URL not allowed. Must start with one of the following domains: https://example.com/'',
        [])"
    by (simp add: demo_registry_def)
  with c h show ?thesis by blast
qed

subsection \<open>C2: a local fetch needs the normalized path in the allow-set\<close>

text \<open>
  C2. For a reference that is not remote: when its normalized path is not a member of
  \<^verbatim>\<open>allowed_local_files\<close>, \<^verbatim>\<open>fetch_docs\<close> raises the ValueError whose message names
  the path and prints the whole set, so that the repr of every member of the set
  occurs in it, and no file is opened or read. Hence a call that opens a file, or
  that returns at all, has its normalized path in the set.
\<close>

theorem fetch_docs_path_containment:
  assumes "\<not> is_http_or_https ref"
  shows "(normalize_path w ref \<notin> set (allowed_local_files st) \<longrightarrow>
            fetch_docs w st ref =
              (Inl (ValueError (''Local file not allowed: '' @ normalize_path w ref
                      @ ''. Allowed files: '' @ repr_set (allowed_local_files st))), [])
            \<and> (\<forall>p \<in> set (allowed_local_files st).
                  \<exists>pre post. repr_set (allowed_local_files st) = pre @ py_repr p @ post))
         \<and> ((snd (fetch_docs w st ref) \<noteq> [] \<or> \<not> isl (fst (fetch_docs w st ref))) \<longrightarrow>
              normalize_path w ref \<in> set (allowed_local_files st))"
proof -
  have a: "normalize_path w ref \<notin> set (allowed_local_files st) \<Longrightarrow>
      fetch_docs w st ref =
        (Inl (ValueError (''Local file not allowed: '' @ normalize_path w ref
                @ ''. Allowed files: '' @ repr_set (allowed_local_files st))), [])"
    using assms by (simp add: fetch_docs_def Let_def)
  have b: "\<forall>p \<in> set (allowed_local_files st).
      \<exists>pre post. repr_set (allowed_local_files st) = pre @ py_repr p @ post"
    using repr_set_member by blast
  have c: "(snd (fetch_docs w st ref) \<noteq> [] \<or> \<not> isl (fst (fetch_docs w st ref))) \<longrightarrow>
      normalize_path w ref \<in> set (allowed_local_files st)"
    using a by (cases "normalize_path w ref \<in> set (allowed_local_files st)") auto
  from a b c show ?thesis by blast
qed

theorem fetch_docs_path_containment_witness:
  "fetch_docs demo_world demo_registry ''file:///etc/shadow'' =
     (Inl (ValueError (''Local file not allowed: /etc/shadow. Allowed files: {''
             @ [CHR 0x27] @ ''/srv/docs/llms.txt'' @ [CHR 0x27] @ ''}'')), [])"
proof -
  have h: "\<not> is_http_or_https ''file:///etc/shadow''" by (simp add: is_http_or_https_def)
  have n: "normalize_path demo_world ''file:///etc/shadow'' = ''/etc/shadow''" by code_simp
  have r: "repr_set (allowed_local_files demo_registry)
             = ''{'' @ [CHR 0x27] @ ''/srv/docs/llms.txt'' @ [CHR 0x27] @ ''}''"
    by code_simp
  have m: "normalize_path demo_world ''file:///etc/shadow'' \<notin> set (allowed_local_files demo_registry)"
    unfolding n by (simp add: demo_registry_def)
  from fetch_docs_path_containment [OF h, of demo_world demo_registry] m
  have "fetch_docs demo_world demo_registry ''file:///etc/shadow'' =
          (Inl (ValueError (''Local file not allowed: '' @ normalize_path demo_world ''file:///etc/shadow''
                  @ ''. Allowed files: '' @ repr_set (allowed_local_files demo_registry))), [])"
    by blast
  then show ?thesis unfolding n r by simp
qed

subsection \<open>C3: discovery stays on the origin of the index\<close>



subsection \<open>C4: which failures are returned and which are raised\<close>




subsection \<open>C5: a failed validating GET changes nothing\<close>

text \<open>
  C5. When the validating GET of \<^verbatim>\<open>add_doc_source\<close> raises, or answers with a status
  outside 200 to 299, the call returns the error text built from that failure, has
  performed the GET only, and leaves the state (source list, \<^verbatim>\<open>domains\<close> and
  \<^verbatim>\<open>allowed_local_files\<close>) exactly as it was.
\<close>

theorem add_doc_source_failed_get:
  assumes "client_get w u = Inl e
           \<or> (client_get w u = Inr r \<and> (status_code r < 200 \<or> 299 < status_code r))"
  shows "add_doc_source w st nm u d =
           (add_error u (case client_get w u of Inl x \<Rightarrow> x
                         | Inr y \<Rightarrow> HTTPStatusError (status_message y)),
            [HttpGet u], st)"
  using assms
  by (auto simp: add_doc_source_def get_checked_def raise_for_status_def split: sum.splits)

theorem add_doc_source_failed_get_witness:
  "add_doc_source demo_world demo_registry ''x'' ''https://example.com/gone'' ''gone'' =
     (''Error validating URL https://example.com/gone: 404 Not Found'',
      [HttpGet ''https://example.com/gone''], demo_registry)"
proof -
  have g: "client_get demo_world ''https://example.com/gone''
             = Inr \<lparr>status_code = 404, resp_text = [], status_message = ''404 Not Found''\<rparr>"
    by (simp add: demo_world_def demo_get_def)
  then have "client_get demo_world ''https://example.com/gone'' = Inl (RequestError [])
      \<or> (client_get demo_world ''https://example.com/gone''
            = Inr \<lparr>status_code = 404, resp_text = [], status_message = ''404 Not Found''\<rparr>
          \<and> (status_code \<lparr>status_code = 404, resp_text = [], status_message = ''404 Not Found''\<rparr> < 200
              \<or> 299 < status_code \<lparr>status_code = 404, resp_text = [],
                                   status_message = ''404 Not Found''\<rparr>))"
    by simp
  from add_doc_source_failed_get [OF this, of demo_registry "''x''" "''gone''"] g
  show ?thesis by (simp add: add_error_def)
qed

subsection \<open>C6: the allow-sets never lose a member\<close>

text \<open>
  C6. Over every sequence of \<^verbatim>\<open>add_doc_source\<close> and \<^verbatim>\<open>remove_doc_source\<close> calls, every
  member of \<^verbatim>\<open>domains\<close> before the sequence is a member after it, and
  \<^verbatim>\<open>allowed_local_files\<close> is unchanged; in particular \<^verbatim>\<open>remove_doc_source\<close> changes
  neither set.
\<close>

theorem allow_sets_never_shrink:
  "set (domains st) \<subseteq> set (domains (run_ops st ops))
   \<and> allowed_local_files (run_ops st ops) = allowed_local_files st
   \<and> domains (snd (remove_doc_source st nm)) = domains st
   \<and> allowed_local_files (snd (remove_doc_source st nm)) = allowed_local_files st"
  by (simp add: run_ops_domains_mono run_ops_files remove_doc_source_frame)

theorem allow_sets_never_shrink_witness:
  "''https://example.com/'' \<in> set (domains (run_ops demo_registry [RemoveDocSource ''Example'']))
   \<and> allowed_local_files (run_ops demo_registry [RemoveDocSource ''Example''])
       = [''/srv/docs/llms.txt'']"
proof -
  have "''https://example.com/'' \<in> set (domains demo_registry)"
    and "allowed_local_files demo_registry = [''/srv/docs/llms.txt'']"
    by (simp_all add: demo_registry_def)
  with allow_sets_never_shrink [of demo_registry "[RemoveDocSource ''Example'']" "''Example''"]
  show ?thesis by auto
qed

subsection \<open>C7: the wildcard absorbs every later addition\<close>

text \<open>
  C7. When the extra origins given to \<^verbatim>\<open>create_server\<close> contain \<^verbatim>\<open>*\<close>, \<^verbatim>\<open>domains\<close> is
  exactly the set with the one member \<^verbatim>\<open>*\<close> after construction and after every
  sequence of \<^verbatim>\<open>add_doc_source\<close> and \<^verbatim>\<open>remove_doc_source\<close> calls, and \<^verbatim>\<open>fetch_docs\<close> of
  any remote URL performs the GET and returns its outcome: the URL is never rejected
  for its origin.
\<close>

theorem wildcard_absorbs:
  assumes "create_server w0 srcs (Some extra) = Inr st0" and "''*'' \<in> set extra"
  shows "domains st0 = [''*'']
         \<and> domains (run_ops st0 ops) = [''*'']
         \<and> (is_http_or_https url \<longrightarrow>
              fetch_docs w (run_ops st0 ops) url =
                (case get_checked w url of
                   Inr response \<Rightarrow> (Inr (markdownify w (resp_text response)), [HttpGet url])
                 | Inl e \<Rightarrow> (if is_httpx_error e
                             then Inr (''Encountered an HTTP error: '' @ str_exn e)
                             else Inl e, [HttpGet url])))"
proof -
  from create_server_wildcard [OF assms] have d0: "domains st0 = [''*'']" .
  then have d: "domains (run_ops st0 ops) = [''*'']" by (rule run_ops_wildcard)
  then have "''*'' \<in> set (domains (run_ops st0 ops))" by simp
  from fetch_docs_wildcard [OF this] d0 d show ?thesis by blast
qed

theorem wildcard_absorbs_witness:
  "create_server demo_world demo_sources (Some [''*'']) = Inr (demo_registry\<lparr>domains := [''*'']\<rparr>)
   \<and> domains (run_ops (demo_registry\<lparr>domains := [''*'']\<rparr>)
        [AddDocSource demo_world ''x'' ''https://example.com/llms.txt'' []]) = [''*'']
   \<and> fetch_docs demo_world
        (run_ops (demo_registry\<lparr>domains := [''*'']\<rparr>)
           [AddDocSource demo_world ''x'' ''https://example.com/llms.txt'' []])
        ''https://example.com/a''
       = (Inr ''<p>page</p>'', [HttpGet ''https://example.com/a''])"
proof -
  have c: "create_server demo_world demo_sources (Some [''*''])
             = Inr (demo_registry\<lparr>domains := [''*'']\<rparr>)"
    by code_simp
  have s: "''*'' \<in> set [''*'']" by simp
  have h: "is_http_or_https ''https://example.com/a''" by (simp add: is_http_or_https_def)
  have g: "get_checked demo_world ''https://example.com/a''
             = Inr \<lparr>status_code = 200, resp_text = ''<p>page</p>'', status_message = []\<rparr>"
    by (simp add: get_checked_def demo_world_def demo_get_def raise_for_status_def)
  from wildcard_absorbs [OF c s, of "[AddDocSource demo_world ''x'' ''https://example.com/llms.txt'' []]"
      "''https://example.com/a''" demo_world] h g c
  show ?thesis by (simp add: demo_world_def)
qed

subsection \<open>C8: local sources and the allow-set of paths\<close>

text \<open>
  C8 (as amended). In every state reached from a successfully constructed registry by
  a sequence of \<^verbatim>\<open>remove_doc_source\<close> calls and of \<^verbatim>\<open>add_doc_source\<close> calls whose URL
  is remote or whose validating GET fails, every source whose reference is local has
  its normalized path in \<^verbatim>\<open>allowed_local_files\<close>. (\<^verbatim>\<open>add_doc_source\<close> never adds to
  \<^verbatim>\<open>allowed_local_files\<close>, so a successful call with a URL that does not start with
  \<^verbatim>\<open>http:\<close> or \<^verbatim>\<open>https:\<close> appends a local source outside the set: the counterexample
  below.)
\<close>

theorem local_sources_stay_allowed:
  assumes "create_server w srcs extra = Inr st0" and "list_all adds_no_local ops"
  shows "local_paths_allowed w (run_ops st0 ops)"
proof -
  have "local_paths_allowed w st \<Longrightarrow> list_all adds_no_local ops \<Longrightarrow>
          local_paths_allowed w (run_ops st ops)" for st
    by (induction ops arbitrary: st) (simp_all add: apply_op_local_paths)
  with create_server_local_paths [OF assms(1)] assms(2) show ?thesis by blast
qed

theorem local_sources_stay_allowed_witness:
  "local_paths_allowed demo_world
     (run_ops demo_registry
        [AddDocSource demo_world ''x'' ''https://example.com/llms.txt'' [],
         RemoveDocSource ''Example'',
         AddDocSource demo_world ''y'' ''ftp://example.com/llms.txt'' []])"
proof -
  have c: "create_server demo_world demo_sources None = Inr demo_registry" by code_simp
  have o: "list_all adds_no_local
             [AddDocSource demo_world ''x'' ''https://example.com/llms.txt'' [],
              RemoveDocSource ''Example'',
              AddDocSource demo_world ''y'' ''ftp://example.com/llms.txt'' []]"
    by (simp add: is_http_or_https_def get_checked_def demo_world_def demo_get_def)
  from local_sources_stay_allowed [OF c o] show ?thesis .
qed

theorem local_sources_stay_allowed_counterexample:
  "create_server demo_world demo_sources None = Inr demo_registry
   \<and> \<not> local_paths_allowed demo_world
         (run_ops demo_registry
            [AddDocSource demo_world ''x'' ''HTTPS://EXAMPLE.COM/llms.txt'' []])"
proof -
  have c: "create_server demo_world demo_sources None = Inr demo_registry" by code_simp
  have "\<not> local_paths_allowed demo_world
         (run_ops demo_registry
            [AddDocSource demo_world ''x'' ''HTTPS://EXAMPLE.COM/llms.txt'' []])"
    by code_simp
  with c show ?thesis by blast
qed

subsection \<open>C9: when extract_domain is idempotent\<close>

text \<open>
  C9 (as amended). Let \<^verbatim>\<open>extract_domain(url)\<close> return \<open>d\<close>. Then
  \<^verbatim>\<open>extract_domain(d)\<close> returns \<open>d\<close> again exactly when \<^verbatim>\<open>urlparse(url)\<close> has a
  scheme or has no network location; in particular for every URL that starts with
  \<^verbatim>\<open>http:\<close> or \<^verbatim>\<open>https:\<close>. (For a URL without a scheme and with a host, such as
  \<^verbatim>\<open>//example.com/x\<close>, the result \<^verbatim>\<open>://example.com/\<close> is mapped to \<^verbatim>\<open>:///\<close>: the
  counterexample below.)
\<close>

theorem extract_domain_idempotent_iff:
  assumes "extract_domain w url = Inr d"
  shows "(extract_domain w d = Inr d \<longleftrightarrow>
            (\<exists>scheme netloc. urlparse w url = Inr (scheme, netloc)
                \<and> (scheme \<noteq> [] \<or> netloc = [])))
         \<and> (is_http_or_https url \<longrightarrow> extract_domain w d = Inr d)"
proof -
  from assms obtain s n where p: "urlparse w url = Inr (s, n)"
    and d: "d = s @ ''://'' @ n @ ''/''"
    by (auto simp: extract_domain_def split: sum.splits prod.splits)
  have iff: "extract_domain w d = Inr d \<longleftrightarrow> s \<noteq> [] \<or> n = []"
  proof (cases "s = []")
    case False
    from urlparse_resynth [OF p False] have "extract_domain w d = Inr d"
      unfolding d extract_domain_def by simp
    with False show ?thesis by simp
  next
    case True
    from urlparse_shape [OF p] have "\<forall>c \<in> set n. \<not> unsafe_url_byte c" by blast
    from urlparse_no_scheme [OF this, of w]
    have "extract_domain w d = Inr '':///''"
      unfolding d True extract_domain_def by simp
    with True show ?thesis by (auto simp: d)
  qed
  have "is_http_or_https url \<longrightarrow> extract_domain w d = Inr d"
    using is_http_scheme [OF _ p] iff by blast
  with iff p show ?thesis by auto
qed

theorem extract_domain_idempotent_iff_witness:
  "extract_domain demo_world ''HTTP://Example.com:80/x?y'' = Inr ''http://Example.com:80/''
   \<and> extract_domain demo_world ''http://Example.com:80/'' = Inr ''http://Example.com:80/''"
proof -
  have e: "extract_domain demo_world ''HTTP://Example.com:80/x?y'' = Inr ''http://Example.com:80/''"
    by code_simp
  have u: "urlparse demo_world ''HTTP://Example.com:80/x?y'' = Inr (''http'', ''Example.com:80'')"
    by code_simp
  from extract_domain_idempotent_iff [OF e] u e show ?thesis by simp
qed

theorem extract_domain_idempotent_counterexample:
  "extract_domain demo_world ''//example.com/x'' = Inr ''://example.com/''
   \<and> extract_domain demo_world ''://example.com/'' = Inr '':///''"
  by code_simp

subsection \<open>C10: sources without a name survive every removal\<close>

text \<open>
  C10. For every state and every name, \<^verbatim>\<open>remove_doc_source(name)\<close> keeps every source
  that has no \<open>name\<close> key: the sources without a name after the call are those before
  it, in the same order. When no source has the given name, the state is unchanged and
  the returned text is the not-found message, whose list of available sources shows
  \<^verbatim>\<open>unnamed\<close> for each source without a name.
\<close>

theorem remove_doc_source_keeps_nameless:
  "filter (\<lambda>s. name s = None) (doc_sources (snd (remove_doc_source st nm)))
     = filter (\<lambda>s. name s = None) (doc_sources st)
   \<and> ((\<forall>s \<in> set (doc_sources st). name s \<noteq> Some nm) \<longrightarrow>
        remove_doc_source st nm =
          (''Documentation source '' @ [CHR 0x27] @ nm @ [CHR 0x27]
             @ '' not found. Available sources: ''
             @ py_join '', ''
                 (map (\<lambda>s. if name s = None then ''unnamed'' else the (name s))
                    (doc_sources st)),
           st))"
proof (cases "find_named nm (doc_sources st) 0")
  case None
  have m: "map name_or_unnamed (doc_sources st)
      = map (\<lambda>s. if name s = None then ''unnamed'' else the (name s)) (doc_sources st)"
    by (rule map_cong) (auto simp: name_or_unnamed_def split: option.splits)
  from None show ?thesis
    by (simp add: remove_doc_source_def m del: py_join.simps)
next
  case (Some i)
  from find_named_bounds [OF Some] have len: "i < length (doc_sources st)" by simp
  from find_named_hit [OF Some] have "name (doc_sources st ! i) = Some nm" by simp
  then have np: "name (doc_sources st ! i) \<noteq> None" by simp
  have hit: "\<not> (\<forall>s \<in> set (doc_sources st). name s \<noteq> Some nm)"
    using Some find_named_none [of nm "doc_sources st" 0] by simp
  have "filter (\<lambda>s. name s = None)
          (take i (doc_sources st) @ drop (Suc i) (doc_sources st))
        = filter (\<lambda>s. name s = None) (doc_sources st)"
    using filter_pop [of i "doc_sources st" "\<lambda>s. name s = None"] len np by simp
  with Some hit show ?thesis
    by (simp add: remove_doc_source_def Let_def)
qed

theorem remove_doc_source_keeps_nameless_witness:
  "remove_doc_source demo_registry ''ghost'' =
     (''Documentation source '' @ [CHR 0x27] @ ''ghost'' @ [CHR 0x27]
        @ '' not found. Available sources: Example, unnamed'',
      demo_registry)"
proof -
  have h: "\<forall>s \<in> set (doc_sources demo_registry). name s \<noteq> Some ''ghost''"
    by (simp add: demo_registry_def demo_sources_def)
  from remove_doc_source_keeps_nameless [of demo_registry "''ghost''"] h
  have "remove_doc_source demo_registry ''ghost'' =
          (''Documentation source '' @ [CHR 0x27] @ ''ghost'' @ [CHR 0x27]
             @ '' not found. Available sources: ''
             @ py_join '', ''
                 (map (\<lambda>s. if name s = None then ''unnamed'' else the (name s))
                    (doc_sources demo_registry)),
           demo_registry)"
    by blast
  then show ?thesis
    by (simp add: demo_registry_def demo_sources_def)
qed

end
